theory Spec2Isabelle
  imports Complex_Main "HOL-Library.Word" "HOL-Library.Multiset"
begin

section \<open>Values exchanged with the client\<close>

text \<open>
  The server of \<^verbatim>\<open>src/backend/server.js\<close> is an Express application over a Mongoose
  model. A request body has been parsed by \<^verbatim>\<open>express.json()\<close> before a handler runs,
  so a handler sees a parsed JSON object: an association list from member names to JSON
  values (member names are unique, as after \<^verbatim>\<open>JSON.parse\<close>). Numbers are the integers;
  \<open>JNum n\<close> stands for a number that a double holds exactly and renders in plain decimal
  (\<open>n\<close> below \<open>2 ^ 53\<close> in magnitude). Fractional and larger numbers are outside the model;
  no property stated here is about them.
\<close>

datatype json =
    JNull
  | JBool bool
  | JNum int
  | JStr string
  | JArr "json list"
  | JObj "(string \<times> json) list"

text \<open>An ObjectId is twelve bytes; a path parameter names one by 24 hexadecimal digits.\<close>

type_synonym objectid = "96 word"

text \<open>
  What a handler passes to \<^verbatim>\<open>res.json\<close>. A \<^verbatim>\<open>Date\<close> is serialised by
  \<^verbatim>\<open>Date.prototype.toISOString\<close> (ISO-8601, UTC); \<open>VIsoTime t\<close> stands for that string
  for the instant \<open>t\<close>, in milliseconds since the epoch. \<open>VObjectId i\<close> stands for the
  24 digit rendering of \<open>i\<close>. The order of the members of an object carries no meaning.
\<close>

datatype jsval =
    VBool bool
  | VNum rat
  | VStr string
  | VIsoTime nat
  | VObjectId objectid
  | VArr "jsval list"
  | VObj "(string \<times> jsval) list"

record response =
  status :: nat
  headers :: "(string \<times> nat) list"
  body :: jsval

definition json_response :: "nat \<Rightarrow> jsval \<Rightarrow> response" where
  "json_response st b = \<lparr>status = st, headers = [], body = b\<rparr>"

section \<open>The task model\<close>

text \<open>
  \<^verbatim>\<open>taskSchema\<close> declares \<^verbatim>\<open>text\<close> (String, required), \<^verbatim>\<open>completed\<close> (Boolean,
  default false) and \<^verbatim>\<open>createdAt\<close> (Date, default \<^verbatim>\<open>Date.now\<close>); Mongoose adds the
  identifier \<^verbatim>\<open>_id\<close> and the version key \<^verbatim>\<open>__v\<close>, which no handler changes and
  which therefore stays 0.
\<close>

record task =
  task_id :: objectid
  task_text :: string
  completed :: bool
  createdAt :: nat

definition task_json :: "task \<Rightarrow> jsval" where
  "task_json t = VObj
     [(''_id'', VObjectId (task_id t)),
      (''text'', VStr (task_text t)),
      (''completed'', VBool (completed t)),
      (''createdAt'', VIsoTime (createdAt t)),
      (''__v'', VNum 0)]"

text \<open>
  Errors thrown by the model layer. \<open>StoreError m\<close> is any error the driver raises with
  message \<open>m\<close> (store unreachable, operation failed). The messages of \<open>ValidationCast\<close>,
  \<open>DuplicateKey\<close> and \<open>DocumentNotFound\<close> are given by their leading words only: Mongoose
  and the driver append a rendering of the offending value or query. The message of
  \<open>CastObjectId\<close> is exact for a parameter without quotes and escapes.
\<close>

datatype error =
    ValidationRequired
  | ValidationCast
  | CastObjectId string
  | DuplicateKey objectid
  | DocumentNotFound
  | StoreError string

fun message :: "error \<Rightarrow> string" where
  "message ValidationRequired = ''Task validation failed: text: Path `text` is required.''"
| "message ValidationCast = ''Task validation failed: text: Cast to string failed''"
| "message (CastObjectId p) =
     ''Cast to ObjectId failed for value '' @ [CHR 0x22] @ p @ [CHR 0x22]
       @ '' (type string) at path '' @ [CHR 0x22] @ ''_id'' @ [CHR 0x22]
       @ '' for model '' @ [CHR 0x22] @ ''Task'' @ [CHR 0x22]"
| "message (DuplicateKey i) = ''E11000 duplicate key error''"
| "message DocumentNotFound = ''No document found for query''"
| "message (StoreError m) = m"

subsection \<open>Casting\<close>

text \<open>Decimal rendering of an integer, as \<^verbatim>\<open>Number.prototype.toString\<close> gives it.\<close>

fun digits :: "nat \<Rightarrow> string" where
  "digits n = (if n < 10 then [''0123456789'' ! n]
               else digits (n div 10) @ [''0123456789'' ! (n mod 10)])"

definition show_int :: "int \<Rightarrow> string" where
  "show_int i = (if i < 0 then CHR ''-'' # digits (nat (- i)) else digits (nat i))"

text \<open>
  Mongoose's cast of a value to a String path. \<open>None\<close> is a value absent from the
  constructor's argument, \<open>Inr None\<close> a path left unset (undefined or null). Strings are
  kept as they are (the schema declares no \<^verbatim>\<open>trim\<close>); booleans and numbers are rendered;
  an object with a non-empty string \<^verbatim>\<open>_id\<close> is read as that identifier; arrays and
  other objects fail the cast.
\<close>

fun castString :: "json option \<Rightarrow> unit + string option" where
  "castString None = Inr None"
| "castString (Some JNull) = Inr None"
| "castString (Some (JStr s)) = Inr (Some s)"
| "castString (Some (JBool b)) = Inr (Some (if b then ''true'' else ''false''))"
| "castString (Some (JNum n)) = Inr (Some (show_int n))"
| "castString (Some (JArr xs)) = Inl ()"
| "castString (Some (JObj kvs)) =
     (case map_of kvs ''_id'' of
        Some (JStr i) \<Rightarrow> if i \<noteq> [] then Inr (Some i) else Inl ()
      | _ \<Rightarrow> Inl ())"

text \<open>
  The \<^verbatim>\<open>required\<close> validator of a String path: the value must be a string of non-zero
  length.
\<close>

fun checkRequired :: "string option \<Rightarrow> bool" where
  "checkRequired None = False"
| "checkRequired (Some s) = (s \<noteq> [])"

definition hexval :: "char \<Rightarrow> nat option" where
  "hexval c =
     (let n = of_char c in
      if 48 \<le> n \<and> n \<le> 57 then Some (n - 48)
      else if 97 \<le> n \<and> n \<le> 102 then Some (n - 87)
      else if 65 \<le> n \<and> n \<le> 70 then Some (n - 55)
      else None)"

fun parse_hex :: "objectid \<Rightarrow> string \<Rightarrow> objectid option" where
  "parse_hex acc [] = Some acc"
| "parse_hex acc (c # cs) =
     (case hexval c of None \<Rightarrow> None | Some d \<Rightarrow> parse_hex (acc * 16 + of_nat d) cs)"

text \<open>
  The cast of a path parameter to an ObjectId: 24 hexadecimal digits, or the cast fails
  and the query throws a CastError.
\<close>

definition castObjectId :: "string \<Rightarrow> objectid option" where
  "castObjectId p = (if length p = 24 then parse_hex 0 p else None)"

section \<open>The environment of one request\<close>

text \<open>
  What a handler reads from outside the program while it serves one request: the clock,
  the uptime of the process in seconds, the identifier the driver generates for a new
  document, and the outcome of every store call the request makes (\<open>None\<close>: the call
  succeeds; \<open>Some m\<close>: it throws an error with message \<open>m\<close>). The outcomes are given call
  by call: \<open>find_fault\<close>, \<open>save_fault\<close>, \<open>delete_fault\<close> and \<open>ping_fault\<close> are the
  outcomes of the first query, the first save, the first delete and the first ping of the
  request, and \<open>later_faults\<close> lists, in order, the outcomes of whatever further store calls
  the request makes after those (a call beyond the list succeeds). A handler that called
  the store again after a failure would read its outcome there.
\<close>

record env =
  now :: nat
  uptime :: rat
  newId :: objectid
  find_fault :: "string option"
  save_fault :: "string option"
  delete_fault :: "string option"
  ping_fault :: "string option"
  later_faults :: "string option list"

text \<open>The outcome of the \<open>n\<close>-th further store call of the request, counted from 0.\<close>

definition later_outcome :: "env \<Rightarrow> nat \<Rightarrow> string option" where
  "later_outcome e n = (if n < length (later_faults e) then later_faults e ! n else None)"

section \<open>Model operations\<close>

text \<open>\<^verbatim>\<open>Task.find().sort({ createdAt: -1 })\<close>\<close>

definition find_sorted :: "string option \<Rightarrow> task list \<Rightarrow> error + task list" where
  "find_sorted fault ts =
     (case fault of
        Some m \<Rightarrow> Inl (StoreError m)
      | None \<Rightarrow> Inr (sort_key (\<lambda>t. - int (createdAt t)) ts))"

text \<open>
  \<^verbatim>\<open>new Task({ text })\<close> followed by \<^verbatim>\<open>task.save()\<close>: the document takes the
  defaults of the schema, is validated, and is inserted; the unique index on \<^verbatim>\<open>_id\<close>
  rejects an identifier already in the collection.
\<close>

definition save_new :: "env \<Rightarrow> json option \<Rightarrow> task list \<Rightarrow> error + (task \<times> task list)" where
  "save_new e txt ts =
     (case castString txt of
        Inl _ \<Rightarrow> Inl ValidationCast
      | Inr v \<Rightarrow>
          if \<not> checkRequired v then Inl ValidationRequired
          else (case save_fault e of
                  Some m \<Rightarrow> Inl (StoreError m)
                | None \<Rightarrow>
                    if newId e \<in> set (map task_id ts) then Inl (DuplicateKey (newId e))
                    else
                      let doc = \<lparr>task_id = newId e,
                                 task_text = (case v of Some s \<Rightarrow> s | None \<Rightarrow> []),
                                 completed = False, createdAt = now e\<rparr>
                      in Inr (doc, ts @ [doc])))"

text \<open>\<^verbatim>\<open>Task.findById(id)\<close>\<close>

definition findById :: "string option \<Rightarrow> string \<Rightarrow> task list \<Rightarrow> error + task option" where
  "findById fault p ts =
     (case castObjectId p of
        None \<Rightarrow> Inl (CastObjectId p)
      | Some i \<Rightarrow>
          (case fault of
             Some m \<Rightarrow> Inl (StoreError m)
           | None \<Rightarrow> Inr (find (\<lambda>t. task_id t = i) ts)))"

text \<open>\<^verbatim>\<open>task.save()\<close> on a document that was read from the store: one update by identifier.\<close>

fun updateOne :: "task \<Rightarrow> task list \<Rightarrow> task list" where
  "updateOne d [] = []"
| "updateOne d (t # ts) = (if task_id t = task_id d then d # ts else t # updateOne d ts)"

definition save_existing :: "string option \<Rightarrow> task \<Rightarrow> task list \<Rightarrow> error + (task \<times> task list)" where
  "save_existing fault d ts =
     (case fault of
        Some m \<Rightarrow> Inl (StoreError m)
      | None \<Rightarrow>
          if task_id d \<in> set (map task_id ts) then Inr (d, updateOne d ts)
          else Inl DocumentNotFound)"

text \<open>\<^verbatim>\<open>Task.findByIdAndDelete(id)\<close>\<close>

fun deleteOne :: "objectid \<Rightarrow> task list \<Rightarrow> task list" where
  "deleteOne i [] = []"
| "deleteOne i (t # ts) = (if task_id t = i then ts else t # deleteOne i ts)"

definition findByIdAndDelete ::
  "string option \<Rightarrow> string \<Rightarrow> task list \<Rightarrow> error + (task option \<times> task list)" where
  "findByIdAndDelete fault p ts =
     (case castObjectId p of
        None \<Rightarrow> Inl (CastObjectId p)
      | Some i \<Rightarrow>
          (case fault of
             Some m \<Rightarrow> Inl (StoreError m)
           | None \<Rightarrow> Inr (find (\<lambda>t. task_id t = i) ts, deleteOne i ts)))"

section \<open>Requests and the state of the server\<close>

text \<open>
  The state a request can change: the task collection, and the hit counters of the rate
  limiter, one per caller address, each with the instant its window ends.
\<close>

record state =
  tasks :: "task list"
  hits :: "string \<rightharpoonup> nat \<times> nat"

datatype verb = GET | POST | PUT | DELETE

text \<open>
  A request: the caller address, the method, the path as its segments
  (\<^verbatim>\<open>/api/tasks\<close> is \<open>[''api'', ''tasks'']\<close>, \<^verbatim>\<open>/\<close> is \<open>[]\<close>) and the parsed body
  (\<open>[]\<close> when the request carries none).
\<close>

record request =
  ip :: string
  rmethod :: verb
  rpath :: "string list"
  reqbody :: "(string \<times> json) list"

section \<open>Route handlers\<close>

definition error_body :: "string \<Rightarrow> jsval" where
  "error_body m = VObj [(''error'', VStr m)]"

text \<open>\<^verbatim>\<open>app.get('/', ...)\<close>\<close>

definition root_info :: "request \<Rightarrow> env \<Rightarrow> state \<Rightarrow> response \<times> state" where
  "root_info req e s =
     (json_response 200 (VObj
        [(''message'', VStr ''Task Manager API is running in Docker!''),
         (''endpoints'', VObj
            [(''GET /api/tasks'', VStr ''Get all tasks''),
             (''POST /api/tasks'', VStr ''Create a task''),
             (''PUT /api/tasks/:id/toggle'', VStr ''Toggle task completion''),
             (''DELETE /api/tasks/:id'', VStr ''Delete a task'')])]), s)"

text \<open>\<^verbatim>\<open>app.get('/api/tasks', ...)\<close>\<close>

definition get_tasks :: "request \<Rightarrow> env \<Rightarrow> state \<Rightarrow> response \<times> state" where
  "get_tasks req e s =
     (case find_sorted (find_fault e) (tasks s) of
        Inr ts \<Rightarrow> (json_response 200 (VArr (map task_json ts)), s)
      | Inl err \<Rightarrow> (json_response 500 (error_body (message err)), s))"

text \<open>\<^verbatim>\<open>app.get('/health', ...)\<close>\<close>

definition health :: "request \<Rightarrow> env \<Rightarrow> state \<Rightarrow> response \<times> state" where
  "health req e s =
     (case ping_fault e of
        None \<Rightarrow>
          (json_response 200 (VObj
             [(''status'', VStr ''healthy''),
              (''timestamp'', VIsoTime (now e)),
              (''uptime'', VNum (uptime e)),
              (''database'', VStr ''connected'')]), s)
      | Some m \<Rightarrow>
          (json_response 503 (VObj
             [(''status'', VStr ''unhealthy''),
              (''error'', VStr m)]), s))"

text \<open>\<^verbatim>\<open>app.post('/api/tasks', ...)\<close>: \<^verbatim>\<open>const { text } = req.body\<close> reads one member.\<close>

definition create_task :: "request \<Rightarrow> env \<Rightarrow> state \<Rightarrow> response \<times> state" where
  "create_task req e s =
     (let txt = map_of (reqbody req) ''text'' in
      case save_new e txt (tasks s) of
        Inr (savedTask, ts) \<Rightarrow> (json_response 201 (task_json savedTask), s\<lparr>tasks := ts\<rparr>)
      | Inl err \<Rightarrow> (json_response 400 (error_body (message err)), s))"

text \<open>\<^verbatim>\<open>app.put('/api/tasks/:id/toggle', ...)\<close>, \<open>p\<close> being \<^verbatim>\<open>req.params.id\<close>.\<close>

definition toggle_task :: "string \<Rightarrow> request \<Rightarrow> env \<Rightarrow> state \<Rightarrow> response \<times> state" where
  "toggle_task p req e s =
     (case findById (find_fault e) p (tasks s) of
        Inl err \<Rightarrow> (json_response 400 (error_body (message err)), s)
      | Inr None \<Rightarrow> (json_response 404 (error_body ''Task not found''), s)
      | Inr (Some t) \<Rightarrow>
          (case save_existing (save_fault e) (t\<lparr>completed := \<not> completed t\<rparr>) (tasks s) of
             Inl err \<Rightarrow> (json_response 400 (error_body (message err)), s)
           | Inr (updatedTask, ts) \<Rightarrow>
               (json_response 200 (task_json updatedTask), s\<lparr>tasks := ts\<rparr>)))"

text \<open>\<^verbatim>\<open>app.delete('/api/tasks/:id', ...)\<close>\<close>

definition delete_task :: "string \<Rightarrow> request \<Rightarrow> env \<Rightarrow> state \<Rightarrow> response \<times> state" where
  "delete_task p req e s =
     (case findByIdAndDelete (delete_fault e) p (tasks s) of
        Inl err \<Rightarrow> (json_response 400 (error_body (message err)), s)
      | Inr (None, ts) \<Rightarrow> (json_response 404 (error_body ''Task not found''), s)
      | Inr (Some deletedTask, ts) \<Rightarrow>
          (json_response 200 (VObj [(''message'', VStr ''Task deleted successfully'')]),
           s\<lparr>tasks := ts\<rparr>))"

section \<open>The middleware stack\<close>

text \<open>
  Express runs the layers of an application in the order of their registration. A layer
  whose route does not match, or which calls \<^verbatim>\<open>next()\<close>, hands the request to the next
  layer, together with the headers it has set on the response; a layer that sends a
  response ends the chain. No route handler of this server calls \<^verbatim>\<open>next()\<close>. Paths are
  compared segment by segment as they are written in the source; that Express also accepts
  another letter case and a trailing slash is not modelled.
\<close>

datatype outcome = Respond response | Next "(string \<times> nat) list"

type_synonym layer = "request \<Rightarrow> env \<Rightarrow> state \<Rightarrow> outcome \<times> state"

definition route ::
  "verb \<Rightarrow> string list \<Rightarrow> (request \<Rightarrow> env \<Rightarrow> state \<Rightarrow> response \<times> state) \<Rightarrow> layer" where
  "route m pth h req e s =
     (if rmethod req = m \<and> rpath req = pth
      then (case h req e s of (r, s') \<Rightarrow> (Respond r, s'))
      else (Next [], s))"

definition route_toggle :: layer where
  "route_toggle req e s =
     (case (rmethod req, rpath req) of
        (PUT, [a, b, p, c]) \<Rightarrow>
          if a = ''api'' \<and> b = ''tasks'' \<and> c = ''toggle''
          then (case toggle_task p req e s of (r, s') \<Rightarrow> (Respond r, s'))
          else (Next [], s)
      | _ \<Rightarrow> (Next [], s))"

definition route_delete :: layer where
  "route_delete req e s =
     (case (rmethod req, rpath req) of
        (DELETE, [a, b, p]) \<Rightarrow>
          if a = ''api'' \<and> b = ''tasks''
          then (case delete_task p req e s of (r, s') \<Rightarrow> (Respond r, s'))
          else (Next [], s)
      | _ \<Rightarrow> (Next [], s))"

subsection \<open>The rate limiter\<close>

definition windowMs :: nat where
  "windowMs = 15 * 60 * 1000"

definition max_hits :: nat where
  "max_hits = 100"

text \<open>
  \<^verbatim>\<open>rateLimit({ windowMs, max, message, standardHeaders: true, legacyHeaders: false })\<close>:
  the counter of the caller is incremented, a new window starting when the caller has none
  or the last one has ended; the \<^verbatim>\<open>RateLimit-*\<close> headers are set; beyond \<open>max_hits\<close> the
  request is answered with status 429, the header \<^verbatim>\<open>Retry-After\<close> and the configured
  message. The value of \<^verbatim>\<open>Retry-After\<close> is the length of the window in seconds, as the
  releases of the library up to 6 send it; later releases send the seconds left in the
  window, and the source pins no release.
\<close>

definition increment :: "nat \<Rightarrow> (nat \<times> nat) option \<Rightarrow> nat \<times> nat" where
  "increment t c =
     (case c of
        None \<Rightarrow> (1, t + windowMs)
      | Some (n, reset) \<Rightarrow> if reset \<le> t then (1, t + windowMs) else (n + 1, reset))"

definition rateLimit :: "jsval \<Rightarrow> layer" where
  "rateLimit msg req e s =
     (let (total, reset) = increment (now e) (hits s (ip req));
          s' = s\<lparr>hits := (hits s)(ip req \<mapsto> (total, reset))\<rparr>;
          hs = [(''RateLimit-Limit'', max_hits),
                (''RateLimit-Remaining'', max_hits - total),
                (''RateLimit-Reset'', (reset - now e + 999) div 1000)]
      in if total > max_hits
         then (Respond \<lparr>status = 429,
                        headers = hs @ [(''Retry-After'', (windowMs + 999) div 1000)],
                        body = msg\<rparr>, s')
         else (Next hs, s'))"

text \<open>\<^verbatim>\<open>app.use('/api/', mw)\<close>: the layer runs for the paths under the prefix only.\<close>

definition use_api :: "layer \<Rightarrow> layer" where
  "use_api mw req e s =
     (case rpath req of
        a # rest \<Rightarrow> if a = ''api'' then mw req e s else (Next [], s)
      | [] \<Rightarrow> (Next [], s))"

text \<open>The end of the stack: no layer answered, Express answers 404.\<close>

definition method_name :: "verb \<Rightarrow> string" where
  "method_name m = (case m of GET \<Rightarrow> ''GET'' | POST \<Rightarrow> ''POST'' | PUT \<Rightarrow> ''PUT'' | DELETE \<Rightarrow> ''DELETE'')"

definition finalhandler :: "request \<Rightarrow> response" where
  "finalhandler req =
     \<lparr>status = 404, headers = [],
      body = VStr (''Cannot '' @ method_name (rmethod req) @ '' /''
                   @ concat (map (\<lambda>seg. seg @ ''/'') (butlast (rpath req)))
                   @ (if rpath req = [] then [] else last (rpath req)))\<rparr>"

fun run :: "layer list \<Rightarrow> request \<Rightarrow> env \<Rightarrow> state \<Rightarrow> response \<times> state" where
  "run [] req e s = (finalhandler req, s)"
| "run (l # ls) req e s =
     (case l req e s of
        (Respond r, s') \<Rightarrow> (r, s')
      | (Next hs, s') \<Rightarrow>
          (case run ls req e s' of (r, s'') \<Rightarrow> (r\<lparr>headers := hs @ headers r\<rparr>, s'')))"

text \<open>
  The file holds two revisions of the server. In the first (lines 1 to 155) the limiter
  is registered after the routes (line 150) and its message is a string; in the second
  (from line 155 on) it is registered before them, with an object as message, and the
  handlers also write log records, which change nothing modelled here. The layers
  \<^verbatim>\<open>cors()\<close>, \<^verbatim>\<open>express.json()\<close>, \<^verbatim>\<open>helmet()\<close> and the request logger pass every request
  on; their headers are not modelled.
\<close>

definition routes_first :: "layer list" where
  "routes_first =
     [route GET [] root_info,
      route GET [''api'', ''tasks''] get_tasks,
      route GET [''health''] health,
      route POST [''api'', ''tasks''] create_task,
      route_toggle,
      route_delete]"

definition limiter_first :: layer where
  "limiter_first =
     rateLimit (VStr ''Too many requests from this IP, please try again later.'')"

definition app_first :: "layer list" where
  "app_first = routes_first @ [use_api limiter_first]"

definition limiter_second :: layer where
  "limiter_second =
     rateLimit (VObj [(''error'', VStr ''Too many requests from this IP, please try again later.''),
                      (''retryAfter'', VStr ''15 minutes'')])"

definition routes_second :: "layer list" where
  "routes_second =
     [route GET [] root_info,
      route GET [''health''] health,
      route GET [''api'', ''tasks''] get_tasks,
      route POST [''api'', ''tasks''] create_task,
      route_toggle,
      route_delete]"

definition app_second :: "layer list" where
  "app_second = use_api limiter_second # routes_second"

text \<open>Serving a sequence of requests, each with its environment, one after the other.\<close>

fun serve :: "layer list \<Rightarrow> (request \<times> env) list \<Rightarrow> state \<Rightarrow> response list \<times> state" where
  "serve app [] s = ([], s)"
| "serve app ((req, e) # rest) s =
     (case run app req e s of
        (r, s') \<Rightarrow> (case serve app rest s' of (rs, s'') \<Rightarrow> (r # rs, s'')))"

section \<open>Observers and example inputs\<close>

text \<open>The member names of a JSON object, and the value of one member.\<close>

fun members :: "jsval \<Rightarrow> string list" where
  "members (VObj kvs) = map fst kvs"
| "members _ = []"

fun member :: "string \<Rightarrow> jsval \<Rightarrow> jsval option" where
  "member k (VObj kvs) = map_of kvs k"
| "member k _ = None"

definition caller :: string where
  "caller = ''203.0.113.7''"

text \<open>An environment at instant \<open>t\<close> in which no store call fails.\<close>

definition quiet_env :: "nat \<Rightarrow> env" where
  "quiet_env t = \<lparr>now = t, uptime = 12, newId = 1, find_fault = None, save_fault = None,
                  delete_fault = None, ping_fault = None, later_faults = []\<rparr>"

definition list_request :: request where
  "list_request = \<lparr>ip = caller, rmethod = GET, rpath = [''api'', ''tasks''], reqbody = []\<rparr>"

definition health_request :: request where
  "health_request = \<lparr>ip = caller, rmethod = GET, rpath = [''health''], reqbody = []\<rparr>"

definition empty_state :: state where
  "empty_state = \<lparr>tasks = [], hits = Map.empty\<rparr>"

definition task_a :: task where
  "task_a = \<lparr>task_id = 1, task_text = ''write report'', completed = False, createdAt = 10\<rparr>"

definition task_b :: task where
  "task_b = \<lparr>task_id = 2, task_text = ''buy milk'', completed = True, createdAt = 30\<rparr>"

definition task_c :: task where
  "task_c = \<lparr>task_id = 3, task_text = ''call home'', completed = False, createdAt = 20\<rparr>"

definition example_state :: state where
  "example_state = \<lparr>tasks = [task_a, task_b, task_c], hits = Map.empty\<rparr>"

definition id_a :: string where
  "id_a = ''000000000000000000000001''"

text \<open>A toggle request whose body tries to name the target value.\<close>

definition toggle_request :: request where
  "toggle_request = \<lparr>ip = caller, rmethod = PUT, rpath = [''api'', ''tasks'', id_a, ''toggle''],
                      reqbody = [(''completed'', JBool False)]\<rparr>"

text \<open>Create requests: a text of three blanks, no text, an empty text, a plain text, and a
  body that carries other members beside the text.\<close>

definition blank_request :: request where
  "blank_request = \<lparr>ip = caller, rmethod = POST, rpath = [''api'', ''tasks''],
                     reqbody = [(''text'', JStr ''   '')]\<rparr>"

definition bare_request :: request where
  "bare_request = \<lparr>ip = caller, rmethod = POST, rpath = [''api'', ''tasks''], reqbody = []\<rparr>"

definition empty_text_request :: request where
  "empty_text_request = \<lparr>ip = caller, rmethod = POST, rpath = [''api'', ''tasks''],
                          reqbody = [(''text'', JStr [])]\<rparr>"

definition milk_request :: request where
  "milk_request = \<lparr>ip = caller, rmethod = POST, rpath = [''api'', ''tasks''],
                    reqbody = [(''text'', JStr ''buy milk'')]\<rparr>"

definition noisy_milk_request :: request where
  "noisy_milk_request = \<lparr>ip = caller, rmethod = POST, rpath = [''api'', ''tasks''],
     reqbody = [(''completed'', JBool True), (''text'', JStr ''buy milk''),
                (''createdAt'', JNum 5), (''_id'', JStr ''000000000000000000000009'')]\<rparr>"

definition single_state :: state where
  "single_state = \<lparr>tasks = [task_a], hits = Map.empty\<rparr>"

text \<open>An identifier of no task of the examples, and a parameter that is no identifier.\<close>

definition id_missing :: string where
  "id_missing = ''00000000000000000000000f''"

definition id_bad :: string where
  "id_bad = ''not-an-id''"

text \<open>The message of a driver error.\<close>

definition refused :: string where
  "refused = ''connect ECONNREFUSED 127.0.0.1:27017''"

section \<open>Facts about the collection\<close>

lemma find_id_Some:
  "find (\<lambda>t. task_id t = i) ts = Some t \<Longrightarrow> task_id t = i \<and> t \<in> set ts"
  by (induction ts) (auto split: if_splits)

lemma find_id_None:
  "find (\<lambda>t. task_id t = i) ts = None \<longleftrightarrow> i \<notin> set (map task_id ts)"
  by (induction ts) auto

lemma find_updateOne:
  "find (\<lambda>t. task_id t = i) ts = Some t \<Longrightarrow> task_id d = i \<Longrightarrow>
   find (\<lambda>t. task_id t = i) (updateOne d ts) = Some d"
  by (induction ts) (auto split: if_splits)

lemma updateOne_restores:
  "find (\<lambda>t. task_id t = i) ts = Some t \<Longrightarrow> task_id d = i \<Longrightarrow>
   updateOne t (updateOne d ts) = ts"
proof (induction ts)
  case Nil
  then show ?case by simp
next
  case (Cons x xs)
  show ?case
  proof (cases "task_id x = i")
    case True
    with Cons.prems have "t = x" by simp
    with True Cons.prems(2) show ?thesis by simp
  next
    case False
    with Cons.prems(1) have f: "find (\<lambda>t. task_id t = i) xs = Some t" by simp
    then have ti: "task_id t = i" using find_id_Some by blast
    have ih: "updateOne t (updateOne d xs) = xs" using Cons.IH [OF f Cons.prems(2)] .
    have "updateOne d (x # xs) = x # updateOne d xs" using False Cons.prems(2) by simp
    moreover have "updateOne t (x # updateOne d xs) = x # updateOne t (updateOne d xs)"
      using False ti by simp
    ultimately show ?thesis using ih by simp
  qed
qed

lemma ids_updateOne: "map task_id (updateOne d ts) = map task_id ts"
  by (induction ts) auto

lemma set_deleteOne:
  "distinct (map task_id ts) \<Longrightarrow> set (deleteOne i ts) = {t \<in> set ts. task_id t \<noteq> i}"
  by (induction ts) (auto simp: image_iff)

lemma ids_deleteOne: "set (map task_id (deleteOne i ts)) \<subseteq> set (map task_id ts)"
  by (induction ts) auto

lemma distinct_deleteOne:
  "distinct (map task_id ts) \<Longrightarrow> distinct (map task_id (deleteOne i ts))"
proof (induction ts)
  case Nil
  then show ?case by simp
next
  case (Cons x xs)
  then show ?case using ids_deleteOne [of i xs] by auto
qed

lemma deleteOne_absent: "i \<notin> set (map task_id ts) \<Longrightarrow> deleteOne i ts = ts"
  by (induction ts) auto

section \<open>Routing in the first revision\<close>

lemma get_tasks_state: "snd (get_tasks req e s) = s"
  by (simp add: get_tasks_def find_sorted_def split: option.splits)

lemma run_first_list:
  "rmethod req = GET \<Longrightarrow> rpath req = [''api'', ''tasks''] \<Longrightarrow>
   run app_first req e s = get_tasks req e s"
  by (simp add: app_first_def routes_first_def route_def split: prod.splits)

lemma run_first_health:
  "rmethod req = GET \<Longrightarrow> rpath req = [''health''] \<Longrightarrow>
   run app_first req e s = health req e s"
  by (simp add: app_first_def routes_first_def route_def split: prod.splits)

lemma serve_first_list:
  "rmethod req = GET \<Longrightarrow> rpath req = [''api'', ''tasks''] \<Longrightarrow>
   serve app_first (replicate n (req, e)) s = (replicate n (fst (get_tasks req e s)), s)"
proof (induction n)
  case 0
  then show ?case by simp
next
  case (Suc n)
  obtain r where g: "get_tasks req e s = (r, s)"
    using get_tasks_state [of req e s] by (metis prod.collapse)
  from Suc show ?case by (simp add: run_first_list g)
qed

section \<open>The limiter in the second revision\<close>

text \<open>No route handler touches the counters of the limiter.\<close>

lemma root_info_state: "snd (root_info req e s) = s"
  by (simp add: root_info_def)

lemma health_state: "snd (health req e s) = s"
  by (simp add: health_def split: option.splits)

lemma create_task_hits: "hits (snd (create_task req e s)) = hits s"
  by (simp add: create_task_def split: sum.splits prod.splits)

lemma toggle_task_hits: "hits (snd (toggle_task p req e s)) = hits s"
  by (simp add: toggle_task_def split: sum.splits option.splits prod.splits)

lemma delete_task_hits: "hits (snd (delete_task p req e s)) = hits s"
  by (simp add: delete_task_def split: sum.splits option.splits prod.splits)

lemma route_hits:
  assumes "\<And>req e s. hits (snd (h req e s)) = hits s"
  shows "hits (snd (route m pth h req e s)) = hits s"
proof (cases "rmethod req = m \<and> rpath req = pth")
  case True
  obtain r s' where hr: "h req e s = (r, s')" by (cases "h req e s")
  with assms [of req e s] have "hits s' = hits s" by simp
  with True hr show ?thesis by (simp add: route_def)
next
  case False
  then show ?thesis by (auto simp: route_def)
qed

lemma route_toggle_hits: "hits (snd (route_toggle req e s)) = hits s"
proof -
  have "\<And>p r s'. toggle_task p req e s = (r, s') \<Longrightarrow> hits s' = hits s"
    using toggle_task_hits by (metis snd_conv)
  then show ?thesis
    by (auto simp: route_toggle_def split: verb.splits list.splits prod.splits)
qed

lemma route_delete_hits: "hits (snd (route_delete req e s)) = hits s"
proof -
  have "\<And>p r s'. delete_task p req e s = (r, s') \<Longrightarrow> hits s' = hits s"
    using delete_task_hits by (metis snd_conv)
  then show ?thesis
    by (auto simp: route_delete_def split: verb.splits list.splits prod.splits)
qed

lemma run_hits:
  assumes "\<And>l req e s. l \<in> set ls \<Longrightarrow> hits (snd (l req e s)) = hits s"
  shows "hits (snd (run ls req e s)) = hits s"
  using assms
proof (induction ls arbitrary: s)
  case Nil
  then show ?case by simp
next
  case (Cons l ls)
  obtain out s' where o: "l req e s = (out, s')" by (cases "l req e s")
  with Cons.prems [of l req e s] have h1: "hits s' = hits s" by simp
  have ih: "hits (snd (run ls req e s')) = hits s'"
    by (rule Cons.IH) (simp add: Cons.prems)
  show ?case
  proof (cases out)
    case (Respond r)
    with o h1 show ?thesis by simp
  next
    case (Next hs)
    obtain r s'' where rr: "run ls req e s' = (r, s'')" by (cases "run ls req e s'")
    with ih h1 have "hits s'' = hits s" by simp
    with o Next rr show ?thesis by simp
  qed
qed

lemma routes_second_hits: "hits (snd (run routes_second req e s)) = hits s"
proof (rule run_hits)
  fix l req e s
  assume "l \<in> set routes_second"
  then consider "l = route GET [] root_info" | "l = route GET [''health''] health"
    | "l = route GET [''api'', ''tasks''] get_tasks" | "l = route POST [''api'', ''tasks''] create_task"
    | "l = route_toggle" | "l = route_delete"
    by (auto simp: routes_second_def)
  then show "hits (snd (l req e s)) = hits s"
  proof cases
    case 1
    then show ?thesis by (simp add: route_hits root_info_state)
  next
    case 2
    then show ?thesis by (simp add: route_hits health_state)
  next
    case 3
    then show ?thesis by (simp add: route_hits get_tasks_state)
  next
    case 4
    then show ?thesis by (simp add: route_hits create_task_hits)
  next
    case 5
    then show ?thesis by (simp add: route_toggle_hits)
  next
    case 6
    then show ?thesis by (simp add: route_delete_hits)
  qed
qed

lemma run_second_health:
  "rmethod req = GET \<Longrightarrow> rpath req = [''health''] \<Longrightarrow>
   run app_second req e s = health req e s"
  by (simp add: app_second_def routes_second_def use_api_def route_def split: prod.splits)

lemma second_revision_limits:
  assumes "rpath req = ''api'' # rest"
    and "hits s (ip req) = Some (n, reset)" and "max_hits \<le> n" and "now e < reset"
  shows "run app_second req e s =
     (\<lparr>status = 429,
       headers = [(''RateLimit-Limit'', 100), (''RateLimit-Remaining'', 0),
                  (''RateLimit-Reset'', (reset - now e + 999) div 1000),
                  (''Retry-After'', 900)],
       body = VObj [(''error'', VStr ''Too many requests from this IP, please try again later.''),
                    (''retryAfter'', VStr ''15 minutes'')]\<rparr>,
      s\<lparr>hits := (hits s)(ip req \<mapsto> (n + 1, reset))\<rparr>)"
  using assms
  by (simp add: app_second_def use_api_def limiter_second_def rateLimit_def increment_def
      max_hits_def windowMs_def)

text \<open>
  In the second revision every request under \<^verbatim>\<open>/api/\<close> is counted before a route sees it:
  after 100 requests of one caller within a window, a further request of that caller
  within it is answered with status 429 and the header \<^verbatim>\<open>Retry-After\<close>, and reaches no
  handler. The health route is outside the prefix in both revisions.
\<close>

lemma run_second_api_hits:
  assumes "rpath req = ''api'' # rest"
  shows "hits (snd (run app_second req e s))
       = (hits s)(ip req \<mapsto> increment (now e) (hits s (ip req)))"
proof -
  obtain total reset where inc: "increment (now e) (hits s (ip req)) = (total, reset)"
    by (cases "increment (now e) (hits s (ip req))")
  define s' where "s' = s\<lparr>hits := (hits s)(ip req \<mapsto> (total, reset))\<rparr>"
  show ?thesis
  proof (cases "total > max_hits")
    case True
    with assms inc show ?thesis
      by (simp add: app_second_def use_api_def limiter_second_def rateLimit_def)
  next
    case False
    obtain r s'' where rr: "run routes_second req e s' = (r, s'')"
      by (cases "run routes_second req e s'")
    with routes_second_hits [of req e s'] have "hits s'' = hits s'" by simp
    with assms inc False rr show ?thesis
      by (simp add: app_second_def use_api_def limiter_second_def rateLimit_def s'_def)
  qed
qed

lemma serve_second_count:
  assumes "hits s c = Some (n, reset)"
    and "\<And>req e. (req, e) \<in> set reqs \<Longrightarrow>
           ip req = c \<and> (\<exists>rest. rpath req = ''api'' # rest) \<and> now e < reset"
  shows "hits (snd (serve app_second reqs s)) c = Some (n + length reqs, reset)"
  using assms
proof (induction reqs arbitrary: s n)
  case Nil
  then show ?case by simp
next
  case (Cons x reqs)
  obtain req e where x: "x = (req, e)" by (cases x)
  from Cons.prems(2) [of req e] x obtain rest where
    c: "ip req = c" and p: "rpath req = ''api'' # rest" and t: "now e < reset"
    by auto
  obtain r s' where rr: "run app_second req e s = (r, s')" by (cases "run app_second req e s")
  have "hits s' = (hits s)(ip req \<mapsto> increment (now e) (hits s (ip req)))"
    using run_second_api_hits [OF p, of e s] rr by simp
  with c t Cons.prems(1) have h': "hits s' c = Some (Suc n, reset)"
    by (simp add: increment_def)
  have "hits (snd (serve app_second reqs s')) c = Some (Suc n + length reqs, reset)"
  proof (rule Cons.IH [OF h'])
    fix req' e'
    assume "(req', e') \<in> set reqs"
    then show "ip req' = c \<and> (\<exists>rest. rpath req' = ''api'' # rest) \<and> now e' < reset"
      using Cons.prems(2) [of req' e'] by simp
  qed
  with x rr show ?case by (auto split: prod.splits)
qed

lemma second_revision_rate_limit:
  assumes fresh: "hits s (ip req1) = None"
    and first: "rpath req1 = ''api'' # rest1"
    and len: "length others = 99"
    and others: "\<And>req e. (req, e) \<in> set others \<Longrightarrow>
           ip req = ip req1 \<and> (\<exists>rest. rpath req = ''api'' # rest) \<and> now e < now e1 + windowMs"
    and final: "ip req = ip req1" "rpath req = ''api'' # rest" "now e < now e1 + windowMs"
  shows "\<exists>rs s100.
           serve app_second ((req1, e1) # others) s = (rs, s100)
         \<and> status (fst (run app_second req e s100)) = 429
         \<and> map_of (headers (fst (run app_second req e s100))) ''Retry-After'' = Some 900
         \<and> tasks (snd (run app_second req e s100)) = tasks s100"
proof -
  obtain r1 s1 where r1: "run app_second req1 e1 s = (r1, s1)"
    by (cases "run app_second req1 e1 s")
  have "hits s1 = (hits s)(ip req1 \<mapsto> increment (now e1) (hits s (ip req1)))"
    using run_second_api_hits [OF first, of e1 s] r1 by simp
  with fresh have h1: "hits s1 (ip req1) = Some (1, now e1 + windowMs)"
    by (simp add: increment_def)
  obtain rs s100 where sv: "serve app_second others s1 = (rs, s100)"
    by (cases "serve app_second others s1")
  have "hits (snd (serve app_second others s1)) (ip req1) = Some (1 + length others, now e1 + windowMs)"
  proof (rule serve_second_count [OF h1])
    fix req' e'
    assume "(req', e') \<in> set others"
    then show "ip req' = ip req1 \<and> (\<exists>rest. rpath req' = ''api'' # rest)
        \<and> now e' < now e1 + windowMs"
      by (rule others)
  qed
  with sv len have h100: "hits s100 (ip req) = Some (100, now e1 + windowMs)"
    by (simp add: final(1))
  have lim: "max_hits \<le> 100" by (simp add: max_hits_def)
  note L = second_revision_limits [OF final(2) h100 lim final(3)]
  have "serve app_second ((req1, e1) # others) s = (r1 # rs, s100)"
    using r1 sv by simp
  moreover have "status (fst (run app_second req e s100)) = 429" by (simp add: L)
  moreover have "map_of (headers (fst (run app_second req e s100))) ''Retry-After'' = Some 900"
    by (simp add: L)
  moreover have "tasks (snd (run app_second req e s100)) = tasks s100" by (simp add: L)
  ultimately show ?thesis by blast
qed

lemma health_never_limited:
  assumes "rmethod req = GET" and "rpath req = [''health'']" and "ping_fault e = None"
  shows "status (fst (run app_first req e s)) = 200 \<and> snd (run app_first req e s) = s
       \<and> status (fst (run app_second req e s)) = 200 \<and> snd (run app_second req e s) = s"
  using assms
  by (simp add: run_first_health run_second_health health_def json_response_def)

section \<open>The claims\<close>

text \<open>
  C1. The claim: the 101st request of one caller to a route under \<^verbatim>\<open>/api/\<close> within a
  window is answered with the rate-limit error. In the first revision the limiter is
  registered after the routes, and a route handler that matches answers without calling
  \<^verbatim>\<open>next()\<close>: 101 requests of one caller to \<^verbatim>\<open>GET /api/tasks\<close> at the same instant are
  all answered with status 200, and the limiter has counted none of them. (The second
  revision limits them, by \<open>second_revision_rate_limit\<close>.)
\<close>

theorem first_revision_api_not_rate_limited:
  "map status (fst (serve app_first (replicate 101 (list_request, quiet_env 0)) empty_state))
     = replicate 101 200
   \<and> hits (snd (serve app_first (replicate 101 (list_request, quiet_env 0)) empty_state)) caller
     = None"
proof -
  have "serve app_first (replicate 101 (list_request, quiet_env 0)) empty_state
      = (replicate 101 (fst (get_tasks list_request (quiet_env 0) empty_state)), empty_state)"
    by (rule serve_first_list) (simp_all add: list_request_def)
  moreover have "status (fst (get_tasks list_request (quiet_env 0) empty_state)) = 200"
    by (simp add: get_tasks_def find_sorted_def quiet_env_def json_response_def)
  ultimately show ?thesis by (simp add: empty_state_def)
qed

text \<open>
  C2. The claim: a create request with a missing, an empty or a whitespace-only text is
  answered with a validation error and persists nothing. The schema declares \<^verbatim>\<open>text\<close>
  as required and declares no \<^verbatim>\<open>trim\<close>, and the handler passes the member on as it is.
  As amended: a create request whose body has no \<^verbatim>\<open>text\<close>, a null \<^verbatim>\<open>text\<close> or an
  empty \<^verbatim>\<open>text\<close> is answered with status 400 and the message of the validation error,
  and the collection is unchanged.
\<close>

theorem create_without_text_rejected:
  assumes "map_of (reqbody req) ''text'' = None
         \<or> map_of (reqbody req) ''text'' = Some JNull
         \<or> map_of (reqbody req) ''text'' = Some (JStr [])"
  shows "create_task req e s = (json_response 400 (error_body (message ValidationRequired)), s)"
  using assms by (auto simp: create_task_def save_new_def)

theorem create_without_text_rejected_witness:
  "map_of (reqbody bare_request) ''text'' = None
   \<and> map_of (reqbody empty_text_request) ''text'' = Some (JStr [])
   \<and> create_task bare_request (quiet_env 5) example_state
       = (json_response 400 (error_body (message ValidationRequired)), example_state)
   \<and> create_task empty_text_request (quiet_env 5) example_state
       = (json_response 400 (error_body (message ValidationRequired)), example_state)"
proof -
  have h1: "map_of (reqbody bare_request) ''text'' = None"
    by (simp add: bare_request_def)
  have h2: "map_of (reqbody empty_text_request) ''text'' = Some (JStr [])"
    by (simp add: empty_text_request_def)
  from h1 have a: "create_task bare_request (quiet_env 5) example_state
       = (json_response 400 (error_body (message ValidationRequired)), example_state)"
    by (intro create_without_text_rejected) simp
  from h2 have b: "create_task empty_text_request (quiet_env 5) example_state
       = (json_response 400 (error_body (message ValidationRequired)), example_state)"
    by (intro create_without_text_rejected) simp
  from h1 h2 a b show ?thesis by blast
qed

text \<open>
  A text of three blanks passes the validator: the request is answered with status 201 and
  the task is in the collection.
\<close>

theorem create_blank_text_accepted:
  "status (fst (create_task blank_request (quiet_env 5) empty_state)) = 201
   \<and> tasks (snd (create_task blank_request (quiet_env 5) empty_state))
       = [\<lparr>task_id = 1, task_text = ''   '', completed = False, createdAt = 5\<rparr>]"
  by (simp add: create_task_def save_new_def blank_request_def quiet_env_def empty_state_def
      json_response_def Let_def)

text \<open>
  C3. Toggling an existing task, with the store answering: the handler reads the task,
  inverts \<open>completed\<close> and saves it, so that a later lookup finds the inverted task;
  nothing in the request beside the identifier has an influence on the result (any other
  request \<open>req0\<close> gives the same); and a second toggle of the same task
  answers with the task as it was and leaves the collection as it was before the first.
\<close>

theorem toggle_twice_restores:
  assumes "castObjectId p = Some i"
    and "find (\<lambda>t. task_id t = i) (tasks s) = Some t"
    and "find_fault e = None" and "save_fault e = None"
    and "find_fault e' = None" and "save_fault e' = None"
  shows "toggle_task p req e s =
           (json_response 200 (task_json (t\<lparr>completed := \<not> completed t\<rparr>)),
            s\<lparr>tasks := updateOne (t\<lparr>completed := \<not> completed t\<rparr>) (tasks s)\<rparr>)
       \<and> find (\<lambda>t. task_id t = i) (tasks (snd (toggle_task p req e s)))
            = Some (t\<lparr>completed := \<not> completed t\<rparr>)
       \<and> toggle_task p req0 e s = toggle_task p req e s
       \<and> toggle_task p req' e' (snd (toggle_task p req e s)) = (json_response 200 (task_json t), s)"
proof -
  define d where "d = t\<lparr>completed := \<not> completed t\<rparr>"
  from assms(2) have ti: "task_id t = i" and tin: "t \<in> set (tasks s)"
    using find_id_Some by blast+
  have di: "task_id d = i" using ti by (simp add: d_def)
  have mem: "task_id d \<in> set (map task_id (tasks s))"
    using tin ti di by force
  have first: "toggle_task p req e s =
      (json_response 200 (task_json d), s\<lparr>tasks := updateOne d (tasks s)\<rparr>)"
    unfolding toggle_task_def findById_def save_existing_def
    using assms(1-4) mem by (simp add: d_def)
  have found: "find (\<lambda>t. task_id t = i) (updateOne d (tasks s)) = Some d"
    using assms(2) di by (rule find_updateOne)
  have indep: "toggle_task p req0 e s = toggle_task p req e s"
    by (simp add: toggle_task_def)
  have restore: "updateOne t (updateOne d (tasks s)) = tasks s"
    using assms(2) di by (rule updateOne_restores)
  have dd: "d\<lparr>completed := \<not> completed d\<rparr> = t" by (simp add: d_def)
  have mem2: "task_id t \<in> set (map task_id (updateOne d (tasks s)))"
    using mem di ti by (simp add: ids_updateOne)
  have second: "toggle_task p req' e' (s\<lparr>tasks := updateOne d (tasks s)\<rparr>) =
      (json_response 200 (task_json t), s)"
    unfolding toggle_task_def findById_def save_existing_def
    using assms(1,5,6) found restore mem2 dd by simp
  from first found indep second show ?thesis unfolding d_def by simp
qed

theorem toggle_twice_restores_witness:
  "castObjectId id_a = Some 1
   \<and> find (\<lambda>t. task_id t = 1) (tasks example_state) = Some task_a
   \<and> find_fault (quiet_env 40) = None \<and> save_fault (quiet_env 40) = None
   \<and> find_fault (quiet_env 50) = None \<and> save_fault (quiet_env 50) = None
   \<and> completed (the (find (\<lambda>t. task_id t = 1)
        (tasks (snd (toggle_task id_a toggle_request (quiet_env 40) example_state))))) = True
   \<and> toggle_task id_a list_request (quiet_env 50)
        (snd (toggle_task id_a toggle_request (quiet_env 40) example_state))
      = (json_response 200 (task_json task_a), example_state)"
proof -
  have h1: "castObjectId id_a = Some 1"
    by (simp add: id_a_def castObjectId_def hexval_def)
  have h2: "find (\<lambda>t. task_id t = 1) (tasks example_state) = Some task_a"
    by (simp add: example_state_def task_a_def)
  have h3: "find_fault (quiet_env 40) = None" and h4: "save_fault (quiet_env 40) = None"
    and h5: "find_fault (quiet_env 50) = None" and h6: "save_fault (quiet_env 50) = None"
    by (simp_all add: quiet_env_def)
  note T = toggle_twice_restores
    [where req = toggle_request and req' = list_request and req0 = list_request,
      OF h1 h2 h3 h4 h5 h6]
  from T have f: "find (\<lambda>t. task_id t = 1)
      (tasks (snd (toggle_task id_a toggle_request (quiet_env 40) example_state)))
      = Some (task_a\<lparr>completed := \<not> completed task_a\<rparr>)"
    by blast
  have c: "completed (the (find (\<lambda>t. task_id t = 1)
      (tasks (snd (toggle_task id_a toggle_request (quiet_env 40) example_state))))) = True"
    unfolding f by (simp add: task_a_def)
  from T have r: "toggle_task id_a list_request (quiet_env 50)
      (snd (toggle_task id_a toggle_request (quiet_env 40) example_state))
      = (json_response 200 (task_json task_a), example_state)"
    by blast
  from h1 h2 h3 h4 h5 h6 c r show ?thesis by blast
qed

text \<open>
  C4. Whatever the collection holds and in whatever order, listing with the store
  answering returns status 200 and a sequence that holds exactly the tasks of the
  collection (as a multiset), ordered by \<open>createdAt\<close> descending; the state is unchanged.
\<close>

theorem list_newest_first:
  assumes "find_fault e = None"
  shows "\<exists>ts. get_tasks req e s = (json_response 200 (VArr (map task_json ts)), s)
            \<and> sorted_wrt (\<lambda>a b. createdAt b \<le> createdAt a) ts
            \<and> mset ts = mset (tasks s)"
proof -
  let ?ts = "sort_key (\<lambda>t. - int (createdAt t)) (tasks s)"
  have "sorted (map (\<lambda>t. - int (createdAt t)) ?ts)" by (rule sorted_sort_key)
  then have "sorted_wrt (\<lambda>a b. createdAt b \<le> createdAt a) ?ts"
    by (simp add: sorted_wrt_map)
  moreover have "mset ?ts = mset (tasks s)" by simp
  moreover have "get_tasks req e s = (json_response 200 (VArr (map task_json ?ts)), s)"
    using assms by (simp add: get_tasks_def find_sorted_def)
  ultimately show ?thesis by blast
qed

theorem list_newest_first_witness:
  "find_fault (quiet_env 60) = None
   \<and> get_tasks list_request (quiet_env 60) example_state
       = (json_response 200 (VArr (map task_json [task_b, task_c, task_a])), example_state)
   \<and> (\<exists>ts. get_tasks list_request (quiet_env 60) example_state
              = (json_response 200 (VArr (map task_json ts)), example_state)
            \<and> sorted_wrt (\<lambda>a b. createdAt b \<le> createdAt a) ts
            \<and> mset ts = mset (tasks example_state))"
proof -
  have h: "find_fault (quiet_env 60) = None" by (simp add: quiet_env_def)
  have v: "get_tasks list_request (quiet_env 60) example_state
       = (json_response 200 (VArr (map task_json [task_b, task_c, task_a])), example_state)"
    by (simp add: get_tasks_def find_sorted_def quiet_env_def example_state_def
        task_a_def task_b_def task_c_def)
  from h v list_newest_first [OF h, of list_request example_state] show ?thesis by blast
qed

text \<open>
  C5. For a parameter that is a well-formed identifier, with the store answering: if no
  task has the identifier, toggle and delete answer with status 404 and the body
  \<^verbatim>\<open>{error: "Task not found"}\<close> and leave the state unchanged; if a task has it
  (identifiers being unique in the collection), delete answers with the confirmation, a
  later listing holds exactly the other tasks, and a second delete of the same identifier
  answers with the not-found error.
\<close>

theorem unknown_id_not_found:
  assumes "castObjectId p = Some i"
    and "find_fault e = None" and "delete_fault e = None"
    and "find_fault e' = None" and "delete_fault e' = None"
  shows "(i \<notin> set (map task_id (tasks s)) \<longrightarrow>
            toggle_task p req e s = (json_response 404 (error_body ''Task not found''), s)
          \<and> delete_task p req e s = (json_response 404 (error_body ''Task not found''), s))
       \<and> (i \<in> set (map task_id (tasks s)) \<and> distinct (map task_id (tasks s)) \<longrightarrow>
            fst (delete_task p req e s)
              = json_response 200 (VObj [(''message'', VStr ''Task deleted successfully'')])
          \<and> (\<exists>ts. get_tasks req' e' (snd (delete_task p req e s))
                     = (json_response 200 (VArr (map task_json ts)), snd (delete_task p req e s))
                   \<and> set ts = {t \<in> set (tasks s). task_id t \<noteq> i})
          \<and> delete_task p req' e' (snd (delete_task p req e s))
              = (json_response 404 (error_body ''Task not found''), snd (delete_task p req e s)))"
proof (intro conjI impI)
  assume absent: "i \<notin> set (map task_id (tasks s))"
  then have none: "find (\<lambda>t. task_id t = i) (tasks s) = None"
    by (simp add: find_id_None)
  show "toggle_task p req e s = (json_response 404 (error_body ''Task not found''), s)"
    using assms(1,2) none by (simp add: toggle_task_def findById_def)
  show "delete_task p req e s = (json_response 404 (error_body ''Task not found''), s)"
    using assms(1,3) none by (simp add: delete_task_def findByIdAndDelete_def)
next
  assume pres: "i \<in> set (map task_id (tasks s)) \<and> distinct (map task_id (tasks s))"
  then have "find (\<lambda>t. task_id t = i) (tasks s) \<noteq> None"
    by (simp add: find_id_None)
  then obtain t where some: "find (\<lambda>t. task_id t = i) (tasks s) = Some t" by blast
  define s' where "s' = s\<lparr>tasks := deleteOne i (tasks s)\<rparr>"
  have del: "delete_task p req e s =
      (json_response 200 (VObj [(''message'', VStr ''Task deleted successfully'')]), s')"
    using assms(1,3) some by (simp add: delete_task_def findByIdAndDelete_def s'_def)
  have rest: "set (tasks s') = {t \<in> set (tasks s). task_id t \<noteq> i}"
    using pres by (simp add: s'_def set_deleteOne)
  then have gone: "i \<notin> set (map task_id (tasks s'))" by auto
  then have none': "find (\<lambda>t. task_id t = i) (tasks s') = None"
    by (simp add: find_id_None)
  have again: "delete_task p req' e' s' = (json_response 404 (error_body ''Task not found''), s')"
    using assms(1,5) none' by (simp add: delete_task_def findByIdAndDelete_def)
  have listed: "get_tasks req' e' s' =
      (json_response 200 (VArr (map task_json (sort_key (\<lambda>t. - int (createdAt t)) (tasks s')))), s')"
    using assms(4) by (simp add: get_tasks_def find_sorted_def)
  show "fst (delete_task p req e s)
      = json_response 200 (VObj [(''message'', VStr ''Task deleted successfully'')])"
    by (simp add: del)
  show "\<exists>ts. get_tasks req' e' (snd (delete_task p req e s))
                 = (json_response 200 (VArr (map task_json ts)), snd (delete_task p req e s))
               \<and> set ts = {t \<in> set (tasks s). task_id t \<noteq> i}"
  proof (intro exI conjI)
    show "get_tasks req' e' (snd (delete_task p req e s))
        = (json_response 200
             (VArr (map task_json (sort_key (\<lambda>t. - int (createdAt t)) (tasks s')))),
           snd (delete_task p req e s))"
      using listed by (simp add: del)
    show "set (sort_key (\<lambda>t. - int (createdAt t)) (tasks s'))
        = {t \<in> set (tasks s). task_id t \<noteq> i}"
      using rest by simp
  qed
  show "delete_task p req' e' (snd (delete_task p req e s))
      = (json_response 404 (error_body ''Task not found''), snd (delete_task p req e s))"
    using again by (simp add: del)
qed

theorem unknown_id_not_found_witness:
  "castObjectId id_missing = Some 15
   \<and> castObjectId id_a = Some 1
   \<and> toggle_task id_missing toggle_request (quiet_env 70) example_state
       = (json_response 404 (error_body ''Task not found''), example_state)
   \<and> delete_task id_missing toggle_request (quiet_env 70) example_state
       = (json_response 404 (error_body ''Task not found''), example_state)
   \<and> tasks (snd (delete_task id_a toggle_request (quiet_env 70) example_state)) = [task_b, task_c]
   \<and> delete_task id_a list_request (quiet_env 80)
        (snd (delete_task id_a toggle_request (quiet_env 70) example_state))
       = (json_response 404 (error_body ''Task not found''),
          snd (delete_task id_a toggle_request (quiet_env 70) example_state))"
proof -
  have h1: "castObjectId id_missing = Some 15"
    by (simp add: id_missing_def castObjectId_def hexval_def)
  have h1a: "castObjectId id_a = Some 1"
    by (simp add: id_a_def castObjectId_def hexval_def)
  have h2: "find_fault (quiet_env 70) = None" and h3: "delete_fault (quiet_env 70) = None"
    and h4: "find_fault (quiet_env 80) = None" and h5: "delete_fault (quiet_env 80) = None"
    by (simp_all add: quiet_env_def)
  have absent: "15 \<notin> set (map task_id (tasks example_state))"
    by (simp add: example_state_def task_a_def task_b_def task_c_def)
  have present: "1 \<in> set (map task_id (tasks example_state))
      \<and> distinct (map task_id (tasks example_state))"
    by (simp add: example_state_def task_a_def task_b_def task_c_def)
  note A = unknown_id_not_found
    [where s = example_state and req = toggle_request and req' = list_request,
      OF h1 h2 h3 h4 h5]
  note B = unknown_id_not_found
    [where s = example_state and req = toggle_request and req' = list_request,
      OF h1a h2 h3 h4 h5]
  from A absent have a1: "toggle_task id_missing toggle_request (quiet_env 70) example_state
       = (json_response 404 (error_body ''Task not found''), example_state)"
    and a2: "delete_task id_missing toggle_request (quiet_env 70) example_state
       = (json_response 404 (error_body ''Task not found''), example_state)"
    by blast+
  from B present have b1: "delete_task id_a list_request (quiet_env 80)
        (snd (delete_task id_a toggle_request (quiet_env 70) example_state))
       = (json_response 404 (error_body ''Task not found''),
          snd (delete_task id_a toggle_request (quiet_env 70) example_state))"
    by blast
  have b2: "tasks (snd (delete_task id_a toggle_request (quiet_env 70) example_state))
      = [task_b, task_c]"
    using h1a h3
    by (simp add: delete_task_def findByIdAndDelete_def example_state_def
        task_a_def task_b_def task_c_def)
  from h1 h1a a1 a2 b1 b2 show ?thesis by blast
qed

text \<open>
  C6. The claim: every element of the listed sequence is an object with the fields
  \<^verbatim>\<open>{id, text, completed, createdAt}\<close>. The handler passes the documents to
  \<^verbatim>\<open>res.json\<close>, and a document carries its identifier under \<^verbatim>\<open>_id\<close> (the name the
  client of \<^verbatim>\<open>src/frontend/script.js\<close> reads) and the version key \<^verbatim>\<open>__v\<close>. As amended:
  every element of the listed sequence is the rendering of a task of the collection, an
  object with exactly the members \<^verbatim>\<open>_id\<close>, \<^verbatim>\<open>text\<close>, \<^verbatim>\<open>completed\<close>, \<^verbatim>\<open>createdAt\<close>
  and \<^verbatim>\<open>__v\<close>, the first four holding the identifier, the text, the flag and the
  creation time of that task.
\<close>

theorem list_elements_are_task_documents:
  assumes "body (fst (get_tasks req e s)) = VArr vs" and "v \<in> set vs"
  shows "\<exists>t \<in> set (tasks s). v = task_json t
          \<and> set (members v) = {''_id'', ''text'', ''completed'', ''createdAt'', ''__v''}
          \<and> member ''_id'' v = Some (VObjectId (task_id t))
          \<and> member ''text'' v = Some (VStr (task_text t))
          \<and> member ''completed'' v = Some (VBool (completed t))
          \<and> member ''createdAt'' v = Some (VIsoTime (createdAt t))"
proof (cases "find_fault e")
  case (Some m)
  with assms(1) show ?thesis
    by (simp add: get_tasks_def find_sorted_def json_response_def error_body_def)
next
  case None
  with assms(1) have "vs = map task_json (sort_key (\<lambda>t. - int (createdAt t)) (tasks s))"
    by (simp add: get_tasks_def find_sorted_def json_response_def)
  with assms(2) obtain t where "t \<in> set (tasks s)" and "v = task_json t" by auto
  then show ?thesis by (auto simp: task_json_def)
qed

theorem list_elements_are_task_documents_witness:
  "body (fst (get_tasks list_request (quiet_env 60) single_state)) = VArr [task_json task_a]
   \<and> task_json task_a \<in> set [task_json task_a]
   \<and> (\<exists>t \<in> set (tasks single_state). task_json task_a = task_json t
          \<and> set (members (task_json task_a)) = {''_id'', ''text'', ''completed'', ''createdAt'', ''__v''}
          \<and> member ''_id'' (task_json task_a) = Some (VObjectId (task_id t))
          \<and> member ''text'' (task_json task_a) = Some (VStr (task_text t))
          \<and> member ''completed'' (task_json task_a) = Some (VBool (completed t))
          \<and> member ''createdAt'' (task_json task_a) = Some (VIsoTime (createdAt t)))"
proof -
  have h1: "body (fst (get_tasks list_request (quiet_env 60) single_state)) = VArr [task_json task_a]"
    by (simp add: get_tasks_def find_sorted_def quiet_env_def single_state_def json_response_def)
  have h2: "task_json task_a \<in> set [task_json task_a]" by simp
  from h1 h2 list_elements_are_task_documents [OF h1 h2] show ?thesis by blast
qed

text \<open>
  Listing a collection of one task gives one object; it has no member named \<^verbatim>\<open>id\<close>.
\<close>

theorem list_element_has_no_id_member:
  "body (fst (get_tasks list_request (quiet_env 60) single_state)) = VArr [task_json task_a]
   \<and> member ''id'' (task_json task_a) = None
   \<and> members (task_json task_a) = [''_id'', ''text'', ''completed'', ''createdAt'', ''__v'']"
  by (simp add: get_tasks_def find_sorted_def quiet_env_def single_state_def json_response_def
      task_json_def)

text \<open>
  C7. When the store call of a handler throws an error with message \<open>m\<close>: listing
  answers with status 500; creating (with a text that passes validation), toggling (whether
  the lookup or the save throws) and deleting answer with status 400; the body is
  \<^verbatim>\<open>{error: m}\<close> each time and the state is unchanged. The error is surfaced without a
  retry: the answer is the same whatever the outcomes \<open>l\<close> of further store calls of the
  request would be, also when every further call would succeed.
\<close>

theorem store_errors_surface:
  "get_tasks req (e\<lparr>find_fault := Some m, later_faults := l\<rparr>) s
     = (json_response 500 (error_body m), s)
   \<and> (castString (map_of (reqbody req) ''text'') = Inr (Some str) \<and> str \<noteq> [] \<longrightarrow>
        create_task req (e\<lparr>save_fault := Some m, later_faults := l\<rparr>) s
          = (json_response 400 (error_body m), s))
   \<and> (castObjectId p = Some i \<longrightarrow>
        toggle_task p req (e\<lparr>find_fault := Some m, later_faults := l\<rparr>) s
          = (json_response 400 (error_body m), s))
   \<and> (castObjectId p = Some i \<and> find (\<lambda>t. task_id t = i) (tasks s) = Some t \<longrightarrow>
        toggle_task p req (e\<lparr>find_fault := None, save_fault := Some m, later_faults := l\<rparr>) s
          = (json_response 400 (error_body m), s))
   \<and> (castObjectId p = Some i \<longrightarrow>
        delete_task p req (e\<lparr>delete_fault := Some m, later_faults := l\<rparr>) s
          = (json_response 400 (error_body m), s))"
proof (intro conjI impI)
  show "get_tasks req (e\<lparr>find_fault := Some m, later_faults := l\<rparr>) s
      = (json_response 500 (error_body m), s)"
    by (simp add: get_tasks_def find_sorted_def)
next
  assume "castString (map_of (reqbody req) ''text'') = Inr (Some str) \<and> str \<noteq> []"
  then show "create_task req (e\<lparr>save_fault := Some m, later_faults := l\<rparr>) s
      = (json_response 400 (error_body m), s)"
    by (simp add: create_task_def save_new_def)
next
  assume "castObjectId p = Some i"
  then show "toggle_task p req (e\<lparr>find_fault := Some m, later_faults := l\<rparr>) s
      = (json_response 400 (error_body m), s)"
    by (simp add: toggle_task_def findById_def)
next
  assume "castObjectId p = Some i \<and> find (\<lambda>t. task_id t = i) (tasks s) = Some t"
  then show "toggle_task p req (e\<lparr>find_fault := None, save_fault := Some m, later_faults := l\<rparr>) s
      = (json_response 400 (error_body m), s)"
    by (simp add: toggle_task_def findById_def save_existing_def)
next
  assume "castObjectId p = Some i"
  then show "delete_task p req (e\<lparr>delete_fault := Some m, later_faults := l\<rparr>) s
      = (json_response 400 (error_body m), s)"
    by (simp add: delete_task_def findByIdAndDelete_def)
qed

text \<open>
  The store refuses the first call and would accept each of the next three: a second
  query would return the three tasks. Every handler answers with the error of the first
  call.
\<close>

theorem store_errors_surface_witness:
  "castString (map_of (reqbody milk_request) ''text'') = Inr (Some ''buy milk'')
   \<and> castObjectId id_a = Some 1
   \<and> find (\<lambda>t. task_id t = 1) (tasks example_state) = Some task_a
   \<and> find_sorted
        (later_outcome
           ((quiet_env 90)\<lparr>find_fault := Some refused, later_faults := [None, None, None]\<rparr>) 0)
        (tasks example_state)
       = Inr [task_b, task_c, task_a]
   \<and> get_tasks milk_request
        ((quiet_env 90)\<lparr>find_fault := Some refused, later_faults := [None, None, None]\<rparr>)
        example_state
       = (json_response 500 (error_body refused), example_state)
   \<and> create_task milk_request
        ((quiet_env 90)\<lparr>save_fault := Some refused, later_faults := [None, None, None]\<rparr>)
        example_state
       = (json_response 400 (error_body refused), example_state)
   \<and> toggle_task id_a milk_request
        ((quiet_env 90)\<lparr>find_fault := Some refused, later_faults := [None, None, None]\<rparr>)
        example_state
       = (json_response 400 (error_body refused), example_state)
   \<and> toggle_task id_a milk_request
        ((quiet_env 90)\<lparr>find_fault := None, save_fault := Some refused,
                          later_faults := [None, None, None]\<rparr>)
        example_state
       = (json_response 400 (error_body refused), example_state)
   \<and> delete_task id_a milk_request
        ((quiet_env 90)\<lparr>delete_fault := Some refused, later_faults := [None, None, None]\<rparr>)
        example_state
       = (json_response 400 (error_body refused), example_state)"
proof -
  have h1: "castString (map_of (reqbody milk_request) ''text'') = Inr (Some ''buy milk'')"
    by (simp add: milk_request_def)
  have h1': "''buy milk'' \<noteq> []" by simp
  have h2: "castObjectId id_a = Some 1"
    by (simp add: id_a_def castObjectId_def hexval_def)
  have h3: "find (\<lambda>t. task_id t = 1) (tasks example_state) = Some task_a"
    by (simp add: example_state_def task_a_def)
  note T = store_errors_surface
    [where req = "milk_request" and e = "quiet_env 90" and m = "refused" and s = "example_state"
       and str = "''buy milk''" and p = "id_a" and i = "1" and t = "task_a"
       and l = "[None, None, None]"]
  have again: "find_sorted
        (later_outcome
           ((quiet_env 90)\<lparr>find_fault := Some refused, later_faults := [None, None, None]\<rparr>) 0)
        (tasks example_state)
       = Inr [task_b, task_c, task_a]"
    by (simp add: later_outcome_def find_sorted_def example_state_def
        task_a_def task_b_def task_c_def)
  from T h1 h1' h2 h3 again show ?thesis by blast
qed

text \<open>
  C8. The health handler returns the state it was given, whether the probe succeeds or
  fails. When the probe succeeds the answer has status 200 and the members
  \<^verbatim>\<open>status: "healthy"\<close>, \<^verbatim>\<open>timestamp\<close> (the current instant in ISO-8601),
  \<^verbatim>\<open>uptime\<close> (of the process, in seconds) and \<^verbatim>\<open>database: "connected"\<close>; when it
  fails with message \<open>m\<close> the answer has status 503 and the members
  \<^verbatim>\<open>status: "unhealthy"\<close> and \<^verbatim>\<open>error: m\<close>.
\<close>

theorem health_reports_without_effect:
  "snd (health req e s) = s
   \<and> fst (health req (e\<lparr>ping_fault := None\<rparr>) s) = json_response 200 (VObj
        [(''status'', VStr ''healthy''),
         (''timestamp'', VIsoTime (now e)),
         (''uptime'', VNum (uptime e)),
         (''database'', VStr ''connected'')])
   \<and> fst (health req (e\<lparr>ping_fault := Some m\<rparr>) s) = json_response 503 (VObj
        [(''status'', VStr ''unhealthy''), (''error'', VStr m)])"
  by (simp add: health_def split: option.splits)

text \<open>
  C9. The create handler reads the member \<^verbatim>\<open>text\<close> of the body and nothing else: two
  requests whose bodies agree on \<^verbatim>\<open>text\<close> have the same result. Whenever it answers with
  status 201, the answer is the new task, appended to the collection, with
  \<open>completed = False\<close>, the current instant as \<open>createdAt\<close>, the generated identifier,
  and the cast of the member \<^verbatim>\<open>text\<close> as text.
\<close>

theorem create_reads_only_text:
  "(map_of (reqbody req) ''text'' = map_of (reqbody req') ''text'' \<longrightarrow>
      create_task req e s = create_task req' e s)
   \<and> (status (fst (create_task req e s)) = 201 \<longrightarrow>
        (\<exists>d. fst (create_task req e s) = json_response 201 (task_json d)
           \<and> tasks (snd (create_task req e s)) = tasks s @ [d]
           \<and> completed d = False \<and> createdAt d = now e \<and> task_id d = newId e
           \<and> castString (map_of (reqbody req) ''text'') = Inr (Some (task_text d))))"
proof (intro conjI impI)
  assume "map_of (reqbody req) ''text'' = map_of (reqbody req') ''text''"
  then show "create_task req e s = create_task req' e s"
    by (simp add: create_task_def)
next
  assume ok: "status (fst (create_task req e s)) = 201"
  show "\<exists>d. fst (create_task req e s) = json_response 201 (task_json d)
           \<and> tasks (snd (create_task req e s)) = tasks s @ [d]
           \<and> completed d = False \<and> createdAt d = now e \<and> task_id d = newId e
           \<and> castString (map_of (reqbody req) ''text'') = Inr (Some (task_text d))"
  proof (cases "save_new e (map_of (reqbody req) ''text'') (tasks s)")
    case (Inl err)
    with ok show ?thesis by (simp add: create_task_def json_response_def)
  next
    case (Inr pr)
    obtain d ts where pr: "pr = (d, ts)" by (cases pr)
    from Inr pr have props: "ts = tasks s @ [d] \<and> completed d = False \<and> createdAt d = now e
        \<and> task_id d = newId e
        \<and> castString (map_of (reqbody req) ''text'') = Inr (Some (task_text d))"
      by (auto simp: save_new_def Let_def split: sum.splits option.splits if_splits)
    from Inr pr have "create_task req e s = (json_response 201 (task_json d), s\<lparr>tasks := ts\<rparr>)"
      by (simp add: create_task_def)
    with props show ?thesis by auto
  qed
qed

theorem create_reads_only_text_witness:
  "map_of (reqbody noisy_milk_request) ''text'' = map_of (reqbody milk_request) ''text''
   \<and> status (fst (create_task noisy_milk_request (quiet_env 95) empty_state)) = 201
   \<and> create_task noisy_milk_request (quiet_env 95) empty_state
       = create_task milk_request (quiet_env 95) empty_state
   \<and> tasks (snd (create_task noisy_milk_request (quiet_env 95) empty_state))
       = [\<lparr>task_id = 1, task_text = ''buy milk'', completed = False, createdAt = 95\<rparr>]
   \<and> (\<exists>d. fst (create_task noisy_milk_request (quiet_env 95) empty_state)
             = json_response 201 (task_json d)
           \<and> tasks (snd (create_task noisy_milk_request (quiet_env 95) empty_state))
             = tasks empty_state @ [d]
           \<and> completed d = False \<and> createdAt d = now (quiet_env 95)
           \<and> task_id d = newId (quiet_env 95)
           \<and> castString (map_of (reqbody noisy_milk_request) ''text'') = Inr (Some (task_text d)))"
proof -
  have h1: "map_of (reqbody noisy_milk_request) ''text'' = map_of (reqbody milk_request) ''text''"
    by (simp add: noisy_milk_request_def milk_request_def)
  have h2: "status (fst (create_task noisy_milk_request (quiet_env 95) empty_state)) = 201"
    by (simp add: create_task_def save_new_def noisy_milk_request_def quiet_env_def
        empty_state_def json_response_def Let_def)
  have v: "tasks (snd (create_task noisy_milk_request (quiet_env 95) empty_state))
       = [\<lparr>task_id = 1, task_text = ''buy milk'', completed = False, createdAt = 95\<rparr>]"
    by (simp add: create_task_def save_new_def noisy_milk_request_def quiet_env_def
        empty_state_def json_response_def Let_def)
  note T = create_reads_only_text
    [where req = noisy_milk_request and req' = milk_request and e = "quiet_env 95"
       and s = empty_state]
  from T h1 h2 v show ?thesis by blast
qed

text \<open>
  C10. For a parameter that is no well-formed identifier, the lookup throws: toggle and
  delete answer with status 400 and the message of the cast error, which is not the
  not-found message, and the state is unchanged.
\<close>

theorem malformed_id_rejected:
  assumes "castObjectId p = None"
  shows "toggle_task p req e s = (json_response 400 (error_body (message (CastObjectId p))), s)
       \<and> delete_task p req e s = (json_response 400 (error_body (message (CastObjectId p))), s)
       \<and> message (CastObjectId p) \<noteq> ''Task not found''"
  using assms
  by (simp add: toggle_task_def delete_task_def findById_def findByIdAndDelete_def
      json_response_def)

theorem malformed_id_rejected_witness:
  "castObjectId id_bad = None
   \<and> toggle_task id_bad toggle_request (quiet_env 70) example_state
       = (json_response 400 (error_body (message (CastObjectId id_bad))), example_state)
   \<and> delete_task id_bad toggle_request (quiet_env 70) example_state
       = (json_response 400 (error_body (message (CastObjectId id_bad))), example_state)"
proof -
  have h: "castObjectId id_bad = None"
    by (simp add: id_bad_def castObjectId_def)
  from h malformed_id_rejected [OF h, of toggle_request "quiet_env 70" example_state]
  show ?thesis by blast
qed

end
